theory Spec2Isabelle
  imports Complex_Main
begin

section \<open>Scalars and arrays\<close>

text \<open>
  The entries of a NumPy \<open>complex128\<close> array are modelled as exact complex numbers, with
  one extra value for the non-finite results of IEEE arithmetic: \<open>None\<close> is NaN (or an
  infinity; the model does not tell them apart). Rounding is not modelled: \<open>+\<close>, \<open>*\<close>,
  \<open>/\<close>, \<open>sqrt\<close>, \<open>sin\<close>, \<open>cos\<close> and \<open>arccos\<close> are the exact functions, and a non-finite
  value arises only from a division by zero. Every operation propagates \<open>None\<close>.
\<close>

type_synonym cval = "complex option"
type_synonym rval = "real option"

fun lift2 :: "('a \<Rightarrow> 'b \<Rightarrow> 'c) \<Rightarrow> 'a option \<Rightarrow> 'b option \<Rightarrow> 'c option" where
  "lift2 f (Some x) (Some y) = Some (f x y)"
| "lift2 f _ _ = None"

text \<open>
  Division of a complex entry by a real one, as in \<open>self.vectors /= norms\<close>: NumPy does not
  raise on a zero divisor, it stores NaN (for \<open>0/0\<close>) or an infinity and carries on.
\<close>

fun true_divide :: "cval \<Rightarrow> rval \<Rightarrow> cval" where
  "true_divide (Some x) (Some r) = (if r = 0 then None else Some (x / complex_of_real r))"
| "true_divide _ _ = None"

text \<open>Multiplication of a complex entry by a real factor (broadcast of a real column).\<close>

definition scale :: "rval \<Rightarrow> cval \<Rightarrow> cval" where
  "scale r x = lift2 (\<lambda>s z. complex_of_real s * z) r x"

text \<open>
  A NumPy array: its \<open>shape\<close> tuple and, for a two-dimensional array of shape \<open>(n, d)\<close>,
  its \<open>n\<close> rows of \<open>d\<close> entries each. The operations below reject every array that is not
  two-dimensional before they read its data, so only the shape of such an array is kept.
\<close>

record ndarray =
  shape :: "nat list"
  rows :: "cval list list"

definition ndim :: "ndarray \<Rightarrow> nat" where
  "ndim a = length (shape a)"

definition well_shaped :: "ndarray \<Rightarrow> bool" where
  "well_shaped a =
     (case shape a of
        [n, d] \<Rightarrow> length (rows a) = n \<and> list_all (\<lambda>r. length r = d) (rows a)
      | _ \<Rightarrow> True)"

text \<open>An array none of whose entries is NaN, given by its exact rows.\<close>

definition finite_array :: "complex list list \<Rightarrow> ndarray" where
  "finite_array vs =
     \<lparr>shape = [length vs, (case vs of [] \<Rightarrow> 0 | v # _ \<Rightarrow> length v)],
      rows = map (map Some) vs\<rparr>"

section \<open>Row primitives\<close>

text \<open>\<open>np.linalg.norm(v)\<close> of one row: the square root of the sum of the squared moduli.\<close>

definition l2norm :: "complex list \<Rightarrow> real" where
  "l2norm v = sqrt (\<Sum>x\<leftarrow>v. (cmod x)\<^sup>2)"

definition norm_row :: "cval list \<Rightarrow> rval" where
  "norm_row v = map_option l2norm (those v)"

text \<open>\<open>np.flatnonzero\<close>: the indices of the entries that differ from zero; NaN differs.\<close>

definition flatnonzero :: "cval list \<Rightarrow> nat list" where
  "flatnonzero v = filter (\<lambda>i. v ! i \<noteq> Some 0) [0..<length v]"

text \<open>\<open>np.angle(z)\<close> is \<open>arctan2(z.imag, z.real)\<close>, in \<open>(-pi, pi]\<close>, and 0 at 0.\<close>

definition arctan2 :: "real \<Rightarrow> real \<Rightarrow> real" where
  "arctan2 y x =
     (if 0 < x then arctan (y / x)
      else if x < 0 \<and> 0 \<le> y then arctan (y / x) + pi
      else if x < 0 then arctan (y / x) - pi
      else if 0 < y then pi / 2
      else if y < 0 then - (pi / 2)
      else 0)"

definition angle :: "complex \<Rightarrow> real" where
  "angle z = arctan2 (Im z) (Re z)"

text \<open>\<open>np.exp(-1j * phase)\<close>.\<close>

definition exp_neg_i :: "rval \<Rightarrow> cval" where
  "exp_neg_i phase = map_option (\<lambda>p. exp (- \<i> * complex_of_real p)) phase"

section \<open>Frame.renormalise\<close>

text \<open>
  The gauge fix of one row: \<open>nz = np.flatnonzero(vec)\<close>; if \<open>nz\<close> is not empty the row is
  multiplied by \<open>exp(-1j * angle(vec[nz[0]]))\<close>.
\<close>

definition gauge_row :: "cval list \<Rightarrow> cval list" where
  "gauge_row vec =
     (case flatnonzero vec of
        [] \<Rightarrow> vec
      | k # _ \<Rightarrow> map (\<lambda>x. lift2 (*) x (exp_neg_i (map_option angle (vec ! k)))) vec)"

definition divide_row :: "cval list \<Rightarrow> cval list" where
  "divide_row v = map (\<lambda>x. true_divide x (norm_row v)) v"

definition renormalise_row :: "cval list \<Rightarrow> cval list" where
  "renormalise_row v = gauge_row (divide_row v)"

definition renormalise_arr :: "ndarray \<Rightarrow> ndarray" where
  "renormalise_arr a = a\<lparr>rows := map renormalise_row (rows a)\<rparr>"

section \<open>Row sums and inner products\<close>

text \<open>\<open>np.sum(row)\<close>: NaN as soon as one entry is.\<close>

definition row_sum :: "cval list \<Rightarrow> cval" where
  "row_sum xs = map_option sum_list (those xs)"

text \<open>\<open>np.real(np.sum(u.conj() * w))\<close> of two rows.\<close>

definition real_inner :: "cval list \<Rightarrow> cval list \<Rightarrow> rval" where
  "real_inner u w = map_option Re (row_sum (map2 (\<lambda>x y. lift2 (*) (map_option cnj x) y) u w))"

section \<open>Frame.gram and Frame.chordal\_distances\<close>

text \<open>\<open>self.vectors @ self.vectors.conj().T\<close>: entry \<open>(i, j)\<close> is the sum over \<open>k\<close> of
  \<open>V[i,k] * conj(V[j,k])\<close>.\<close>

definition gram_entry :: "cval list \<Rightarrow> cval list \<Rightarrow> cval" where
  "gram_entry u w = row_sum (map2 (\<lambda>x y. lift2 (*) x (map_option cnj y)) u w)"


text \<open>\<open>np.fill_diagonal(g, 1.0)\<close> on a square matrix given by its rows.\<close>

definition fill_diagonal :: "rval list list \<Rightarrow> real \<Rightarrow> rval list list" where
  "fill_diagonal g c = map (\<lambda>i. (g ! i)[i := Some c]) [0..<length g]"



section \<open>Frame.project\<close>

definition project_row :: "cval list \<Rightarrow> cval list \<Rightarrow> cval list" where
  "project_row vec arr =
     (let radial = real_inner arr vec
      in map2 (\<lambda>a v. lift2 (-) a (scale radial v)) arr vec)"

definition project_arr :: "ndarray \<Rightarrow> ndarray \<Rightarrow> ndarray" where
  "project_arr vectors arr = arr\<lparr>rows := map2 project_row (rows vectors) (rows arr)\<rparr>"

section \<open>Frame.retract\<close>

text \<open>
  The two scale columns of \<open>retract\<close>. \<open>small = norms < 1e-12\<close> is false on NaN, so a NaN
  norm takes the \<open>~small\<close> branch and stays NaN. In that branch the divisor is at least
  \<open>1e-12\<close>.
\<close>

definition scale_sin :: "rval \<Rightarrow> rval" where
  "scale_sin norms = map_option (\<lambda>n. if n < 1 / 10 ^ 12 then 1 else sin n / n) norms"

definition scale_cos :: "rval \<Rightarrow> rval" where
  "scale_cos norms = map_option (\<lambda>n. if n < 1 / 10 ^ 12 then 1 - n\<^sup>2 / 2 else cos n) norms"

definition retract_row :: "cval list \<Rightarrow> cval list \<Rightarrow> cval list" where
  "retract_row vec tang =
     (let norms = norm_row tang
      in map2 (\<lambda>v t. lift2 (+) (scale (scale_cos norms) v) (scale (scale_sin norms) t)) vec tang)"

text \<open>\<open>new_vecs\<close>, a fresh array.\<close>

definition new_vecs :: "ndarray \<Rightarrow> ndarray \<Rightarrow> ndarray" where
  "new_vecs vectors tang = vectors\<lparr>rows := map2 retract_row (rows vectors) (rows tang)\<rparr>"

section \<open>Frame.log\_map\<close>

definition clip :: "real \<Rightarrow> real" where
  "clip x = min 1 (max (- 1) x)"

text \<open>
  \<open>scale = zeros; scale[mask] = theta[mask] / sin(theta[mask])\<close> with
  \<open>mask = theta > 1e-12\<close>: a NaN angle is not in the mask and keeps the scale 0; a zero
  sine under the mask gives an infinity.
\<close>

definition log_scale :: "rval \<Rightarrow> rval" where
  "log_scale theta =
     (case theta of
        None \<Rightarrow> Some 0
      | Some t \<Rightarrow>
          if 1 / 10 ^ 12 < t then (if sin t = 0 then None else Some (t / sin t)) else Some 0)"

definition log_map_row :: "cval list \<Rightarrow> cval list \<Rightarrow> cval list" where
  "log_map_row vec other =
     (let inner = map_option clip (real_inner vec other);
          theta = map_option arccos inner;
          sc = log_scale theta
      in map2 (\<lambda>v g. scale sc (lift2 (-) g (scale inner v))) vec other)"

definition log_map_arr :: "ndarray \<Rightarrow> ndarray \<Rightarrow> ndarray" where
  "log_map_arr vectors other = vectors\<lparr>rows := map2 log_map_row (rows vectors) (rows other)\<rparr>"

section \<open>The manifold invariants\<close>

definition first_nonzero :: "complex list \<Rightarrow> complex option" where
  "first_nonzero v = (case filter (\<lambda>x. x \<noteq> 0) v of [] \<Rightarrow> None | x # _ \<Rightarrow> Some x)"

definition gauge_fixed :: "complex list \<Rightarrow> bool" where
  "gauge_fixed v = (case first_nonzero v of None \<Rightarrow> True | Some x \<Rightarrow> Im x = 0 \<and> 0 < Re x)"

definition valid_vec :: "complex list \<Rightarrow> bool" where
  "valid_vec v \<longleftrightarrow> l2norm v = 1 \<and> gauge_fixed v"

definition valid_row :: "cval list \<Rightarrow> bool" where
  "valid_row r = (case those r of None \<Rightarrow> False | Some v \<Rightarrow> valid_vec v)"

definition valid_array :: "ndarray \<Rightarrow> bool" where
  "valid_array a \<longleftrightarrow> ndim a = 2 \<and> well_shaped a \<and> list_all valid_row (rows a)"

section \<open>Finite rows\<close>

text \<open>
  The same computations on rows without NaN, as exact complex vectors. The lemmas below
  show that the operations above agree with them on such rows.
\<close>

text \<open>What \<open>renormalise\<close> makes of a finite row of non-zero norm.\<close>

definition renormalised :: "complex list \<Rightarrow> complex list" where
  "renormalised v =
     (let u = map (\<lambda>x. x / complex_of_real (l2norm v)) v
      in case first_nonzero u of
           None \<Rightarrow> u
         | Some z \<Rightarrow> map (\<lambda>x. x * exp (- \<i> * complex_of_real (angle z))) u)"

section \<open>Frames in a store\<close>

text \<open>
  \<open>Frame.renormalise\<close> writes into the array its Frame holds, and \<open>from_array\<close> with
  \<open>copy=False\<close> wraps the caller's array without copying it, so arrays live in a store and
  a Frame holds a reference. A reference is an index into the store; \<open>alloc\<close> appends.
  Every array of the model is \<open>complex128\<close>, so each \<open>astype(np.complex128, copy=False)\<close>
  returns its argument.
\<close>

type_synonym ref = nat
type_synonym store = "ndarray list"

record Frame =
  vectors :: ref

text \<open>
  The four \<open>ValueError\<close>s of the class: of \<open>__post_init__\<close> (vectors not 2-D), of
  \<open>from_array\<close> (\<open>arr\<close> not 2-D), of \<open>retract\<close> (tangent array shape mismatch) and of
  \<open>log_map\<close> (Frame shapes mismatch).
\<close>

datatype error = VectorsNot2D | ArrNot2D | TangentShapeMismatch | FrameShapesMismatch

definition alloc :: "store \<Rightarrow> ndarray \<Rightarrow> ref \<times> store" where
  "alloc h a = (length h, h @ [a])"

text \<open>The dataclass constructor \<open>Frame(vectors)\<close>, that is \<open>__post_init__\<close>.\<close>

definition Frame_init :: "store \<Rightarrow> ref \<Rightarrow> error + Frame" where
  "Frame_init h v = (if ndim (h ! v) \<noteq> 2 then Inl VectorsNot2D else Inr \<lparr>vectors = v\<rparr>)"

definition renormalise :: "store \<Rightarrow> Frame \<Rightarrow> store" where
  "renormalise h self = h[vectors self := renormalise_arr (h ! vectors self)]"

definition from_array :: "store \<Rightarrow> ref \<Rightarrow> bool \<Rightarrow> (error + Frame) \<times> store" where
  "from_array h arr copy =
     (if ndim (h ! arr) \<noteq> 2 then (Inl ArrNot2D, h)
      else
        let (vecs, h1) = (if copy then alloc h (h ! arr) else (arr, h))
        in case Frame_init h1 vecs of
             Inl e \<Rightarrow> (Inl e, h1)
           | Inr frame \<Rightarrow> (Inr frame, renormalise h1 frame))"



definition copy :: "store \<Rightarrow> Frame \<Rightarrow> (error + Frame) \<times> store" where
  "copy h self = from_array h (vectors self) True"

text \<open>
  \<open>project\<close> has no shape check. With equal shapes it returns a fresh array; with
  different shapes NumPy broadcasts or raises, which is outside this model (\<open>None\<close>).
\<close>

definition project :: "store \<Rightarrow> Frame \<Rightarrow> ref \<Rightarrow> (ref \<times> store) option" where
  "project h self arr =
     (if shape (h ! arr) = shape (h ! vectors self)
      then Some (alloc h (project_arr (h ! vectors self) (h ! arr)))
      else None)"

definition retract :: "store \<Rightarrow> Frame \<Rightarrow> ref \<Rightarrow> (error + Frame) \<times> store" where
  "retract h self tang =
     (if shape (h ! tang) \<noteq> shape (h ! vectors self) then (Inl TangentShapeMismatch, h)
      else
        let (p, h1) = alloc h (new_vecs (h ! vectors self) (h ! tang))
        in from_array h1 p False)"

definition log_map :: "store \<Rightarrow> Frame \<Rightarrow> Frame \<Rightarrow> (error + ref) \<times> store" where
  "log_map h self other =
     (if shape (h ! vectors self) \<noteq> shape (h ! vectors other) then (Inl FrameShapesMismatch, h)
      else
        let (p, h1) = alloc h (log_map_arr (h ! vectors self) (h ! vectors other))
        in (Inr p, h1))"

text \<open>A Frame of the store that satisfies the invariants.\<close>

definition valid_frame :: "store \<Rightarrow> Frame \<Rightarrow> bool" where
  "valid_frame h f \<longleftrightarrow> vectors f < length h \<and> valid_array (h ! vectors f)"

text \<open>The Frame of the spec's concrete scenario: rows \<open>(1, 0)\<close> and \<open>(0, 1)\<close>.\<close>

definition unit_frame_2x2 :: ndarray where
  "unit_frame_2x2 = finite_array [[1, 0], [0, 1]]"

text \<open>\<open>Re \<langle>u, w\<rangle>\<close>, the real part of the sum of \<open>conj(u[k]) * w[k]\<close>.\<close>

definition inner_re :: "complex list \<Rightarrow> complex list \<Rightarrow> real" where
  "inner_re u w = Re (\<Sum>(x, y)\<leftarrow>zip u w. cnj x * y)"

text \<open>What \<open>project\<close> makes of a finite row \<open>arr\<close> at the finite row \<open>vec\<close>.\<close>

definition project_vec :: "complex list \<Rightarrow> complex list \<Rightarrow> complex list" where
  "project_vec vec arr = map2 (\<lambda>a v. a - complex_of_real (inner_re arr vec) * v) arr vec"

text \<open>An array without NaN.\<close>

definition finite_rows :: "ndarray \<Rightarrow> bool" where
  "finite_rows a = list_all (\<lambda>r. those r \<noteq> None) (rows a)"

text \<open>A store with the Frame of the scenario and an ambient array of its shape.\<close>

definition ambient_store :: store where
  "ambient_store = [unit_frame_2x2, finite_array [[2, \<i>], [3, 4]]]"

text \<open>
  A store for the shape checks: the Frame of the scenario, a \<open>(2, 3)\<close> array and a Frame
  of shape \<open>(2, 3)\<close>.
\<close>

definition mismatch_store :: store where
  "mismatch_store = [unit_frame_2x2, finite_array [[0, 0, 0], [0, 0, 0]], finite_array [[1, 0, 0], [0, 1, 0]]]"

text \<open>Two arrays that are not on the manifold: a row of norm 2 and a row that starts with \<open>-1\<close>.\<close>

definition raw_store :: store where
  "raw_store = [finite_array [[2]], finite_array [[- 1]]]"

text \<open>An entry of the Gram matrix of finite rows.\<close>

definition gram_vec :: "complex list \<Rightarrow> complex list \<Rightarrow> complex" where
  "gram_vec u w = (\<Sum>(x, y)\<leftarrow>zip u w. x * cnj y)"

text \<open>
  The retraction of one row in the words of the specification: with \<open>theta\<close> the norm of
  the tangent row, the first-order fallback below \<open>1e-12\<close> and the geodesic step otherwise.
\<close>

definition spec_retract_row :: "complex list \<Rightarrow> complex list \<Rightarrow> complex list" where
  "spec_retract_row F_i xi_i =
     (let theta = l2norm xi_i
      in if theta < 1 / 10 ^ 12
         then map2 (\<lambda>f x. complex_of_real (1 - theta\<^sup>2 / 2) * f + x) F_i xi_i
         else map2 (\<lambda>f x. complex_of_real (cos theta) * f + complex_of_real (sin theta / theta) * x)
                F_i xi_i)"




definition zero_tangent_store :: store where
  "zero_tangent_store = [unit_frame_2x2, finite_array [[0, 0], [0, 0]]]"

text \<open>What \<open>log_map\<close> makes of two finite rows, where no division by a zero sine occurs.\<close>

definition log_vec :: "complex list \<Rightarrow> complex list \<Rightarrow> complex list" where
  "log_vec vec other =
     (let inner = clip (inner_re vec other);
          theta = arccos inner;
          sc = (if 1 / 10 ^ 12 < theta then theta / sin theta else 0)
      in map2 (\<lambda>v g. complex_of_real sc * (g - complex_of_real inner * v)) vec other)"

text \<open>Two rows, or two arrays of one shape, without NaN and equal within \<open>eps\<close> in every entry.\<close>

definition close_rows :: "real \<Rightarrow> cval list \<Rightarrow> cval list \<Rightarrow> bool" where
  "close_rows eps r s =
     (case (those r, those s) of
        (Some u, Some w) \<Rightarrow> list_all2 (\<lambda>x y. cmod (x - y) \<le> eps) u w
      | _ \<Rightarrow> False)"









text \<open>The projection of one row in the words of the specification.\<close>

definition spec_project_row :: "complex list \<Rightarrow> complex list \<Rightarrow> complex list" where
  "spec_project_row F_i A_i = map2 (\<lambda>a f. a - complex_of_real (inner_re F_i A_i) * f) A_i F_i"

section \<open>Basic facts\<close>

lemma those_map_Some [simp]: "those (map Some v) = Some v"
  by (induction v) simp_all

lemma those_eq_Some: "those r = Some v \<Longrightarrow> r = map Some v"
  by (induction r arbitrary: v) (auto split: option.splits)

lemma norm_row_Some [simp]: "norm_row (map Some v) = Some (l2norm v)"
  by (simp add: norm_row_def)

section \<open>The angle and the gauge rotation\<close>

lemma sqrt_aux: "x \<noteq> 0 \<Longrightarrow> sqrt (1 + (y / x)\<^sup>2) = sqrt (x\<^sup>2 + y\<^sup>2) / \<bar>x\<bar>"
proof -
  assume x: "x \<noteq> 0"
  have "1 + (y / x)\<^sup>2 = (x\<^sup>2 + y\<^sup>2) / x\<^sup>2"
    using x by (simp add: field_simps power2_eq_square)
  then show ?thesis
    by (simp add: real_sqrt_divide)
qed

lemma cos_arctan_div: "x \<noteq> 0 \<Longrightarrow> cos (arctan (y / x)) = \<bar>x\<bar> / sqrt (x\<^sup>2 + y\<^sup>2)"
  by (simp add: cos_arctan sqrt_aux)

lemma sin_arctan_div: "x \<noteq> 0 \<Longrightarrow> sin (arctan (y / x)) = (y / x) * \<bar>x\<bar> / sqrt (x\<^sup>2 + y\<^sup>2)"
  by (simp add: sin_arctan sqrt_aux)

lemma cos_arctan2: "x \<noteq> 0 \<or> y \<noteq> 0 \<Longrightarrow> cos (arctan2 y x) = x / sqrt (x\<^sup>2 + y\<^sup>2)"
  by (auto simp: arctan2_def cos_arctan_div)

lemma sin_arctan2: "x \<noteq> 0 \<or> y \<noteq> 0 \<Longrightarrow> sin (arctan2 y x) = y / sqrt (x\<^sup>2 + y\<^sup>2)"
  by (auto simp: arctan2_def sin_arctan_div)

lemma cis_angle: "z \<noteq> 0 \<Longrightarrow> cis (angle z) = sgn z"
  by (auto simp: complex_eq_iff angle_def cos_arctan2 sin_arctan2 cmod_def sgn_eq)

lemma exp_neg_i_angle: "z \<noteq> 0 \<Longrightarrow> exp (- \<i> * complex_of_real (angle z)) = cnj (sgn z)"
proof -
  assume "z \<noteq> 0"
  have "exp (- \<i> * complex_of_real (angle z)) = cis (- angle z)"
    by (simp add: cis_conv_exp)
  also have "\<dots> = cnj (cis (angle z))"
    by (simp add: cis_cnj)
  finally show ?thesis
    using cis_angle[OF \<open>z \<noteq> 0\<close>] by simp
qed

lemma angle_pos_real: "Im z = 0 \<Longrightarrow> 0 < Re z \<Longrightarrow> angle z = 0"
  by (simp add: angle_def arctan2_def)

lemma lift2_Some_right [simp]: "lift2 f x (Some y) = map_option (\<lambda>a. f a y) x"
  by (cases x) simp_all

lemma divide_row_Some:
  "divide_row (map Some v) =
     (if l2norm v = 0 then replicate (length v) None
      else map Some (map (\<lambda>x. x / complex_of_real (l2norm v)) v))"
  by (simp add: divide_row_def comp_def map_replicate_const)

lemma flatnonzero_Some:
  "flatnonzero (map Some v) = filter (\<lambda>i. v ! i \<noteq> 0) [0..<length v]"
  unfolding flatnonzero_def by (rule filter_cong) simp_all

lemma filter_nth_upt: "map ((!) v) (filter (\<lambda>i. P (v ! i)) [0..<length v]) = filter P v"
proof -
  have "filter P (map ((!) v) [0..<length v]) = map ((!) v) (filter (P \<circ> (!) v) [0..<length v])"
    by (rule filter_map)
  then show ?thesis
    by (simp add: map_nth comp_def)
qed

lemma first_nonzero_flatnonzero:
  "first_nonzero v = (case flatnonzero (map Some v) of [] \<Rightarrow> None | k # _ \<Rightarrow> Some (v ! k))"
proof -
  have "filter (\<lambda>x. x \<noteq> 0) v = map ((!) v) (flatnonzero (map Some v))"
    using filter_nth_upt[of v "\<lambda>x. x \<noteq> 0"] by (simp add: flatnonzero_Some)
  then show ?thesis
    by (simp add: first_nonzero_def split: list.splits)
qed

lemma flatnonzero_hd_less: "flatnonzero r = k # ks \<Longrightarrow> k < length r"
proof -
  assume "flatnonzero r = k # ks"
  then have "k \<in> set (flatnonzero r)" by simp
  then show ?thesis by (simp add: flatnonzero_def)
qed

lemma gauge_row_Some:
  "gauge_row (map Some v) =
     (case first_nonzero v of
        None \<Rightarrow> map Some v
      | Some z \<Rightarrow> map Some (map (\<lambda>x. x * exp (- \<i> * complex_of_real (angle z))) v))"
proof (cases "flatnonzero (map Some v)")
  case Nil
  then show ?thesis
    by (simp add: gauge_row_def first_nonzero_flatnonzero)
next
  case (Cons k ks)
  then have "k < length v"
    using flatnonzero_hd_less[of "map Some v" k ks] by simp
  then show ?thesis
    using Cons by (simp add: gauge_row_def first_nonzero_flatnonzero exp_neg_i_def)
qed

lemma gauge_row_NaN: "gauge_row (replicate n None) = replicate n None"
  by (cases n) (simp_all add: gauge_row_def flatnonzero_def exp_neg_i_def split: list.splits)


lemma l2norm_eq_0_iff: "l2norm v = 0 \<longleftrightarrow> (\<forall>x\<in>set v. x = 0)"
proof -
  have "(\<Sum>x\<leftarrow>v. (cmod x)\<^sup>2) = 0 \<longleftrightarrow> (\<forall>y\<in>set (map (\<lambda>x. (cmod x)\<^sup>2) v). y = 0)"
    by (rule sum_list_nonneg_eq_0_iff) auto
  then show ?thesis
    by (auto simp: l2norm_def)
qed







lemma renormalise_row_Some:
  "renormalise_row (map Some v) =
     (if l2norm v = 0 then replicate (length v) None else map Some (renormalised v))"
proof (cases "l2norm v = 0")
  case True
  then show ?thesis
    by (simp add: renormalise_row_def divide_row_Some gauge_row_NaN)
next
  case False
  define u where "u = map (\<lambda>x. x / complex_of_real (l2norm v)) v"
  have "renormalise_row (map Some v) = gauge_row (map Some u)"
    using False by (simp only: renormalise_row_def divide_row_Some u_def if_False)
  also have "\<dots> = map Some (renormalised v)"
    by (simp only: gauge_row_Some renormalised_def Let_def u_def[symmetric])
      (simp split: option.splits)
  finally show ?thesis
    using False by simp
qed


lemma renormalised_valid:
  assumes "valid_vec v"
  shows "renormalised v = v"
proof -
  have n: "l2norm v = 1" and g: "gauge_fixed v"
    using assms by (simp_all add: valid_vec_def)
  show ?thesis
  proof (cases "first_nonzero v")
    case None
    then show ?thesis by (simp add: renormalised_def n)
  next
    case (Some z)
    then have "angle z = 0"
      using g by (simp add: gauge_fixed_def angle_pos_real)
    then show ?thesis
      using Some by (simp add: renormalised_def n)
  qed
qed


section \<open>Idempotence of renormalise\<close>

lemma valid_row_D: "valid_row r \<Longrightarrow> \<exists>v. r = map Some v \<and> valid_vec v"
  by (auto simp: valid_row_def split: option.splits dest: those_eq_Some)

lemma valid_row_Some [simp]: "valid_row (map Some v) = valid_vec v"
  by (simp add: valid_row_def)

lemma renormalise_row_valid: "valid_row r \<Longrightarrow> renormalise_row r = r"
proof -
  assume "valid_row r"
  then obtain v where r: "r = map Some v" and v: "valid_vec v"
    using valid_row_D by blast
  from v have "l2norm v \<noteq> 0" by (simp add: valid_vec_def)
  then show ?thesis
    using v by (simp add: r renormalise_row_Some renormalised_valid)
qed

lemma renormalise_arr_valid: "valid_array a \<Longrightarrow> renormalise_arr a = a"
proof -
  assume "valid_array a"
  then have "\<And>r. r \<in> set (rows a) \<Longrightarrow> renormalise_row r = r"
    by (simp add: valid_array_def list_all_iff renormalise_row_valid)
  then have "map renormalise_row (rows a) = rows a"
    by (simp add: map_idI)
  then show ?thesis
    by (simp add: renormalise_arr_def)
qed

lemma l2norm_10 [simp]: "l2norm [1, 0] = 1" "l2norm [0, 1] = 1"
  by (simp_all add: l2norm_def)

lemma valid_unit_frame_2x2: "valid_array unit_frame_2x2"
  by (simp add: unit_frame_2x2_def finite_array_def valid_array_def ndim_def well_shaped_def
      valid_row_def valid_vec_def gauge_fixed_def first_nonzero_def)

text \<open>
  Claim C5. renormalise is idempotent: on a valid Frame (every row of unit norm and
  gauge-fixed) a further call of renormalise leaves the vectors matrix, and the whole
  store, exactly as it was.
\<close>

theorem renormalise_idempotent: "valid_frame h f \<Longrightarrow> renormalise h f = h"
  by (simp add: valid_frame_def renormalise_def renormalise_arr_valid)

theorem renormalise_idempotent_witness:
  "valid_frame [unit_frame_2x2] \<lparr>vectors = 0\<rparr>
   \<and> renormalise [unit_frame_2x2] \<lparr>vectors = 0\<rparr> = [unit_frame_2x2]"
  using renormalise_idempotent[of "[unit_frame_2x2]" "\<lparr>vectors = 0\<rparr>"]
  by (simp add: valid_frame_def valid_unit_frame_2x2)

section \<open>A zero row\<close>

lemma divide_row_zero: "divide_row (replicate d (Some 0)) = replicate d None"
proof -
  have "replicate d (Some (0::complex)) = map Some (replicate d 0)" by simp
  moreover have "l2norm (replicate d 0) = 0" by (simp add: l2norm_eq_0_iff)
  ultimately show ?thesis
    by (simp only: divide_row_Some) simp
qed

text \<open>
  Claim C8. A row that is identically zero is not gauge-fixed by renormalise and no error
  is raised: the row that renormalise leaves is the row as the division by its (zero)
  norm left it. That division turns every entry into NaN; NaN counts as non-zero, so the
  rotation is carried out, and it leaves the NaN row as it is.
\<close>

theorem renormalise_zero_row:
  assumes "i < length (rows a)" and "rows a ! i = replicate d (Some 0)"
  shows "rows (renormalise_arr a) ! i = divide_row (rows a ! i)
         \<and> divide_row (rows a ! i) = replicate d None"
  using assms by (simp add: renormalise_arr_def renormalise_row_def divide_row_zero gauge_row_NaN)

theorem renormalise_zero_row_witness:
  "0 < length (rows (finite_array [[0, 0], [1, 0]]))
   \<and> rows (finite_array [[0, 0], [1, 0]]) ! 0 = replicate 2 (Some 0)
   \<and> rows (renormalise_arr (finite_array [[0, 0], [1, 0]])) ! 0 = divide_row [Some 0, Some 0]
   \<and> divide_row [Some 0, Some 0] = [None, None]"
  using renormalise_zero_row[of 0 "finite_array [[0, 0], [1, 0]]" 2]
  by (simp add: finite_array_def numeral_2_eq_2)

section \<open>Inner products and the tangent projection\<close>

lemma map2_Some:
  "map2 (\<lambda>x y. F x y) (map Some u) (map Some w) = map2 (\<lambda>x y. F (Some x) (Some y)) u w"
  by (simp add: zip_map_map split_def)

lemma those_map_Some_fun [simp]: "those (map (\<lambda>x. Some (f x)) xs) = Some (map f xs)"
  by (induction xs) simp_all

lemma those_map_Some_comp [simp]: "those (map (Some \<circ> f) xs) = Some (map f xs)"
  by (induction xs) simp_all

lemma row_sum_Some [simp]: "row_sum (map Some v) = Some (sum_list v)"
  by (simp add: row_sum_def)

lemma real_inner_Some [simp]: "real_inner (map Some u) (map Some w) = Some (inner_re u w)"
proof -
  have "map2 (\<lambda>x y. lift2 (*) (map_option cnj x) y) (map Some u) (map Some w)
        = map Some (map2 (\<lambda>x y. cnj x * y) u w)"
    by (simp add: zip_map_map split_def)
  then show ?thesis
    by (simp only: real_inner_def inner_re_def row_sum_Some option.map)
qed

lemma project_row_Some:
  "project_row (map Some f) (map Some a) = map Some (project_vec f a)"
  by (simp add: project_row_def project_vec_def scale_def zip_map_map split_def)

lemma inner_re_Nil [simp]: "inner_re [] w = 0" "inner_re u [] = 0"
  by (simp_all add: inner_re_def)

lemma inner_re_Cons [simp]:
  "inner_re (x # u) (y # w) = Re (cnj x * y) + inner_re u w"
  by (simp add: inner_re_def)

lemma inner_re_commute: "inner_re u w = inner_re w u"
proof (induction u arbitrary: w)
  case Nil
  then show ?case by simp
next
  case (Cons x u)
  then show ?case by (cases w) (simp_all add: mult.commute)
qed

lemma sum_sq_nonneg: "0 \<le> (\<Sum>x\<leftarrow>v. (cmod x)\<^sup>2)"
  by (auto intro!: sum_list_nonneg)

lemma l2norm_power2: "(l2norm v)\<^sup>2 = (\<Sum>x\<leftarrow>v. (cmod x)\<^sup>2)"
  by (simp add: l2norm_def sum_sq_nonneg)

lemma l2norm_Cons: "(l2norm (x # v))\<^sup>2 = (cmod x)\<^sup>2 + (l2norm v)\<^sup>2"
  by (simp add: l2norm_power2)

lemma l2norm_Nil [simp]: "l2norm [] = 0"
  by (simp add: l2norm_def)

lemma inner_re_self: "inner_re v v = (l2norm v)\<^sup>2"
proof (induction v)
  case Nil
  then show ?case by simp
next
  case (Cons x v)
  have "Re (cnj x * x) = (Re x)\<^sup>2 + (Im x)\<^sup>2"
    by (simp add: power2_eq_square)
  then have "Re (cnj x * x) = (cmod x)\<^sup>2"
    by (simp only: cmod_power2)
  then show ?case
    using Cons by (simp only: inner_re_Cons l2norm_Cons)
qed

lemma inner_re_lincomb:
  "length f = length t \<Longrightarrow>
   inner_re u (map2 (\<lambda>x y. complex_of_real c * x + complex_of_real s * y) f t)
   = c * inner_re u f + s * inner_re u t"
proof (induction f t arbitrary: u rule: list_induct2)
  case Nil
  then show ?case by simp
next
  case (Cons x f y t)
  then show ?case by (cases u) (simp_all add: algebra_simps)
qed

lemma inner_re_project:
  assumes "length f = length a"
  shows "inner_re f (project_vec f a) = inner_re f a * (1 - (l2norm f)\<^sup>2)"
proof -
  have "project_vec f a = map2 (\<lambda>x y. complex_of_real 1 * x + complex_of_real (- inner_re a f) * y) a f"
    by (simp add: project_vec_def)
  then have "inner_re f (project_vec f a) = 1 * inner_re f a + (- inner_re a f) * inner_re f f"
    using assms by (simp only: inner_re_lincomb)
  then show ?thesis
    by (simp add: inner_re_self inner_re_commute[of a f] algebra_simps)
qed

lemma ndim_2_D: "ndim a = 2 \<Longrightarrow> \<exists>n d. shape a = [n, d]"
  by (cases "shape a"; cases "tl (shape a)"; cases "tl (tl (shape a))") (auto simp: ndim_def)

lemma well_shaped_D:
  "well_shaped a \<Longrightarrow> shape a = [n, d] \<Longrightarrow>
   length (rows a) = n \<and> (\<forall>r\<in>set (rows a). length r = d)"
  by (simp add: well_shaped_def list_all_iff)

lemma project_row_tangent:
  assumes "valid_row f" and "those a \<noteq> None" and "length f = length a"
  shows "real_inner f (project_row f a) = Some 0"
proof -
  obtain v where f: "f = map Some v" and v: "valid_vec v"
    using assms(1) valid_row_D by blast
  obtain w where a: "a = map Some w"
    using assms(2) those_eq_Some by fastforce
  have len: "length v = length w"
    using assms(3) by (simp add: f a)
  have "inner_re v (project_vec v w) = 0"
    using v by (simp add: inner_re_project[OF len] valid_vec_def)
  then show ?thesis
    by (simp only: f a project_row_Some real_inner_Some)
qed


section \<open>Shape checks\<close>

lemma new_vecs_shape [simp]: "shape (new_vecs a t) = shape a"
  by (simp add: new_vecs_def)

lemma renormalise_arr_shape [simp]: "shape (renormalise_arr a) = shape a"
  by (simp add: renormalise_arr_def)

lemma from_array_fresh:
  "ndim a = 2 \<Longrightarrow>
   from_array (h @ [a]) (length h) False = (Inr \<lparr>vectors = length h\<rparr>, h @ [renormalise_arr a])"
  by (simp add: from_array_def Frame_init_def renormalise_def)

lemma retract_eq:
  "retract h self tang =
     (if shape (h ! tang) \<noteq> shape (h ! vectors self) then (Inl TangentShapeMismatch, h)
      else if ndim (h ! vectors self) \<noteq> 2
        then (Inl ArrNot2D, h @ [new_vecs (h ! vectors self) (h ! tang)])
      else (Inr \<lparr>vectors = length h\<rparr>,
            h @ [renormalise_arr (new_vecs (h ! vectors self) (h ! tang))]))"
  by (simp add: retract_def alloc_def from_array_fresh ndim_def)
    (simp add: from_array_def ndim_def)

lemma log_map_eq:
  "log_map h self other =
     (if shape (h ! vectors self) \<noteq> shape (h ! vectors other) then (Inl FrameShapesMismatch, h)
      else (Inr (length h), h @ [log_map_arr (h ! vectors self) (h ! vectors other)]))"
  by (simp add: log_map_def alloc_def)

text \<open>
  Claim C9. On a Frame (whose array is two-dimensional) \<open>retract\<close> fails if and only if
  the tangent array does not have the Frame's shape, and \<open>log_map\<close> fails if and only if
  the other Frame does not; the error is the shape-mismatch \<open>ValueError\<close>, and it is raised
  before anything is allocated or written: the store is returned as it was.
\<close>

theorem shape_mismatch_iff:
  assumes "ndim (h ! vectors self) = 2"
  shows "((\<exists>e. fst (retract h self tang) = Inl e) \<longleftrightarrow> shape (h ! tang) \<noteq> shape (h ! vectors self))
       \<and> (shape (h ! tang) \<noteq> shape (h ! vectors self)
            \<longrightarrow> retract h self tang = (Inl TangentShapeMismatch, h))
       \<and> ((\<exists>e. fst (log_map h self other) = Inl e)
            \<longleftrightarrow> shape (h ! vectors other) \<noteq> shape (h ! vectors self))
       \<and> (shape (h ! vectors other) \<noteq> shape (h ! vectors self)
            \<longrightarrow> log_map h self other = (Inl FrameShapesMismatch, h))"
  using assms by (auto simp: retract_eq log_map_eq)

theorem shape_mismatch_iff_witness:
  "ndim (mismatch_store ! vectors \<lparr>vectors = 0\<rparr>) = 2
   \<and> shape (mismatch_store ! 1) \<noteq> shape (mismatch_store ! vectors \<lparr>vectors = 0\<rparr>)
   \<and> shape (mismatch_store ! vectors \<lparr>vectors = 2\<rparr>) \<noteq> shape (mismatch_store ! vectors \<lparr>vectors = 0\<rparr>)
   \<and> retract mismatch_store \<lparr>vectors = 0\<rparr> 1 = (Inl TangentShapeMismatch, mismatch_store)
   \<and> log_map mismatch_store \<lparr>vectors = 0\<rparr> \<lparr>vectors = 2\<rparr> = (Inl FrameShapesMismatch, mismatch_store)"
proof -
  have h1: "ndim (mismatch_store ! vectors \<lparr>vectors = 0\<rparr>) = 2"
    by (simp add: mismatch_store_def unit_frame_2x2_def finite_array_def ndim_def)
  have h2: "shape (mismatch_store ! 1) \<noteq> shape (mismatch_store ! vectors \<lparr>vectors = 0\<rparr>)"
    by (simp add: mismatch_store_def unit_frame_2x2_def finite_array_def)
  have h3: "shape (mismatch_store ! vectors \<lparr>vectors = 2\<rparr>) \<noteq> shape (mismatch_store ! vectors \<lparr>vectors = 0\<rparr>)"
    by (simp add: mismatch_store_def unit_frame_2x2_def finite_array_def)
  show ?thesis
    using shape_mismatch_iff[OF h1, of 1 "\<lparr>vectors = 2\<rparr>"] h1 h2 h3 by blast
qed


section \<open>The dataclass constructor\<close>

lemma l2norm_single [simp]: "l2norm [x] = cmod x"
  by (simp add: l2norm_def)

lemma first_nonzero_single: "x \<noteq> 0 \<Longrightarrow> first_nonzero [x] = Some x"
  by (simp add: first_nonzero_def)

lemma renormalised_2: "renormalised [2] = [1]"
  by (simp add: renormalised_def first_nonzero_def angle_def arctan2_def)

lemma renormalised_m1: "renormalised [- 1] = [1]"
  using exp_neg_i_angle[of "- 1"] by (simp add: renormalised_def first_nonzero_def)

lemma valid_vec_1: "valid_vec [1]"
  by (simp add: valid_vec_def gauge_fixed_def first_nonzero_def)

text \<open>
  Claim C10. The dataclass constructor rejects exactly the arrays that are not
  two-dimensional and otherwise wraps its argument as it is, without renormalising: the
  arrays \<open>[[2]]\<close> (a row of norm 2) and \<open>[[-1]]\<close> (a leading entry that is real and
  negative) become Frames that violate the invariants, while \<open>from_array\<close> turns either of
  them into the valid Frame \<open>[[1]]\<close>.
\<close>

theorem Frame_init_no_renormalise:
  "(Frame_init h v = Inl VectorsNot2D \<longleftrightarrow> ndim (h ! v) \<noteq> 2)
   \<and> (ndim (h ! v) = 2 \<longrightarrow> Frame_init h v = Inr \<lparr>vectors = v\<rparr>)
   \<and> Frame_init raw_store 0 = Inr \<lparr>vectors = 0\<rparr>
   \<and> those (rows (raw_store ! 0) ! 0) = Some [2] \<and> l2norm [2] \<noteq> 1
   \<and> \<not> valid_frame raw_store \<lparr>vectors = 0\<rparr>
   \<and> Frame_init raw_store 1 = Inr \<lparr>vectors = 1\<rparr>
   \<and> those (rows (raw_store ! 1) ! 0) = Some [- 1] \<and> \<not> gauge_fixed [- 1]
   \<and> \<not> valid_frame raw_store \<lparr>vectors = 1\<rparr>
   \<and> from_array raw_store 0 True = (Inr \<lparr>vectors = 2\<rparr>, raw_store @ [finite_array [[1]]])
   \<and> valid_frame (raw_store @ [finite_array [[1]]]) \<lparr>vectors = 2\<rparr>
   \<and> from_array raw_store 1 True = (Inr \<lparr>vectors = 2\<rparr>, raw_store @ [finite_array [[1]]])"
proof -
  have a: "renormalise_arr (finite_array [[2]]) = finite_array [[1]]"
    using renormalise_row_Some[of "[2]"] by (simp add: renormalise_arr_def finite_array_def renormalised_2)
  have b: "renormalise_arr (finite_array [[- 1]]) = finite_array [[1]]"
    using renormalise_row_Some[of "[- 1]"] by (simp add: renormalise_arr_def finite_array_def renormalised_m1)
  have c: "ndim (finite_array vs) = 2" for vs
    by (simp add: ndim_def finite_array_def)
  have "from_array raw_store 0 True = (Inr \<lparr>vectors = 2\<rparr>, raw_store @ [finite_array [[1]]])"
    by (simp add: from_array_def raw_store_def alloc_def Frame_init_def renormalise_def a c)
  moreover have "from_array raw_store 1 True = (Inr \<lparr>vectors = 2\<rparr>, raw_store @ [finite_array [[1]]])"
    by (simp add: from_array_def raw_store_def alloc_def Frame_init_def renormalise_def b c)
  moreover have "valid_frame (raw_store @ [finite_array [[1]]]) \<lparr>vectors = 2\<rparr>"
    by (simp add: valid_frame_def raw_store_def valid_array_def c valid_vec_1)
      (simp add: finite_array_def well_shaped_def valid_row_def valid_vec_1)
  moreover have "\<not> valid_frame raw_store \<lparr>vectors = 0\<rparr>"
    by (simp add: valid_frame_def raw_store_def valid_array_def finite_array_def valid_row_def valid_vec_def)
  moreover have "\<not> valid_frame raw_store \<lparr>vectors = 1\<rparr>"
    by (simp add: valid_frame_def raw_store_def valid_array_def finite_array_def valid_row_def valid_vec_def
       gauge_fixed_def first_nonzero_def)
  moreover have "\<not> gauge_fixed [- 1]"
    by (simp add: gauge_fixed_def first_nonzero_def)
  ultimately show ?thesis
    by (simp add: Frame_init_def) (simp add: raw_store_def finite_array_def c ndim_def)
qed

theorem Frame_init_no_renormalise_witness:
  "ndim (raw_store ! 0) = 2 \<and> Frame_init raw_store 0 = Inr \<lparr>vectors = 0\<rparr>
   \<and> \<not> valid_frame raw_store \<lparr>vectors = 0\<rparr>"
  using Frame_init_no_renormalise[of raw_store 0]
  by (simp add: raw_store_def finite_array_def ndim_def)

section \<open>Gram matrix and chordal distances\<close>

lemma gram_entry_Some [simp]: "gram_entry (map Some u) (map Some w) = Some (gram_vec u w)"
proof -
  have "map2 (\<lambda>x y. lift2 (*) x (map_option cnj y)) (map Some u) (map Some w)
        = map Some (map2 (\<lambda>x y. x * cnj y) u w)"
    by (simp add: zip_map_map split_def)
  then show ?thesis
    by (simp only: gram_entry_def gram_vec_def row_sum_Some)
qed

lemma gram_vec_Nil [simp]: "gram_vec [] w = 0" "gram_vec u [] = 0"
  by (simp_all add: gram_vec_def)





lemma valid_rows_D:
  "list_all valid_row rs \<Longrightarrow> \<exists>vs. rs = map (map Some) vs \<and> list_all valid_vec vs"
proof (induction rs)
  case Nil
  then show ?case by simp
next
  case (Cons r rs)
  then obtain vs where vs: "rs = map (map Some) vs" "list_all valid_vec vs" by auto
  obtain v where "r = map Some v" "valid_vec v"
    using Cons.prems valid_row_D by auto
  then have "r # rs = map (map Some) (v # vs) \<and> list_all valid_vec (v # vs)"
    using vs by simp
  then show ?case by (rule exI[where x = "v # vs"])
qed

lemma fill_diagonal_nth:
  "i < length g \<Longrightarrow> j < length (g ! i) \<Longrightarrow>
   fill_diagonal g c ! i ! j = (if i = j then Some c else g ! i ! j)"
  by (auto simp: fill_diagonal_def)






section \<open>Construction and retraction\<close>

lemma retract_row_Some:
  "retract_row (map Some f) (map Some t) = map Some (spec_retract_row f t)"
  by (simp add: retract_row_def spec_retract_row_def scale_def scale_sin_def scale_cos_def
      zip_map_map split_def Let_def)

lemma length_renormalise_row [simp]: "length (renormalise_row r) = length r"
  by (simp add: renormalise_row_def gauge_row_def divide_row_def split: list.splits)

lemma well_shaped_renormalise_arr [simp]: "well_shaped (renormalise_arr a) = well_shaped a"
  by (simp add: well_shaped_def renormalise_arr_def list_all_iff split: list.splits)

lemma ndim_renormalise_arr [simp]: "ndim (renormalise_arr a) = ndim a"
  by (simp add: ndim_def)









lemma finite_rows_D: "finite_rows a \<Longrightarrow> \<exists>vs. rows a = map (map Some) vs"
proof -
  assume "finite_rows a"
  then have "map Some (the (those r)) = r" if r: "r \<in> set (rows a)" for r
  proof -
    obtain v where "those r = Some v"
      using \<open>finite_rows a\<close> r by (auto simp: finite_rows_def list_all_iff)
    then show ?thesis
      using those_eq_Some[of r v] by simp
  qed
  then have "map (map Some) (map (\<lambda>r. the (those r)) (rows a)) = rows a"
    by (simp add: map_idI)
  then show ?thesis by metis
qed

lemma new_vecs_finite:
  assumes "rows F = map (map Some) fs" and "rows T = map (map Some) ts"
  shows "new_vecs F T = F\<lparr>rows := map (map Some) (map2 spec_retract_row fs ts)\<rparr>"
  using assms by (simp add: new_vecs_def zip_map_map split_def retract_row_Some)

lemma spec_retract_row_zero: "spec_retract_row f (replicate (length f) 0) = f"
proof -
  have "l2norm (replicate (length f) 0) = 0"
    by (simp add: l2norm_eq_0_iff)
  moreover have "map2 (\<lambda>x y. x + y) f (replicate (length f) (0::complex)) = f"
    by (induction f) simp_all
  ultimately show ?thesis
    by (simp add: spec_retract_row_def)
qed

lemma map2_spec_retract_row_zero:
  "map2 spec_retract_row fs (map (\<lambda>f. replicate (length f) 0) fs) = fs"
  by (induction fs) (simp_all add: spec_retract_row_zero)

text \<open>
  Claim C4. On arrays without NaN, \<open>retract\<close> returns a new Frame whose array is
  \<open>renormalise\<close> applied to the matrix of the rows \<open>spec_retract_row F_i xi_i\<close>, which is
  \<open>cos(theta) F_i + (sin(theta)/theta) xi_i\<close> for \<open>theta = |xi_i|\<close> at least \<open>1e-12\<close> and
  \<open>(1 - theta^2/2) F_i + xi_i\<close> below. For a valid Frame and the zero tangent the new Frame's
  array equals the Frame's.
\<close>

theorem retract_spec:
  "(ndim (h ! vectors self) = 2 \<and> shape (h ! tang) = shape (h ! vectors self)
      \<and> rows (h ! vectors self) = map (map Some) fs \<and> rows (h ! tang) = map (map Some) ts
    \<longrightarrow> retract h self tang
          = (Inr \<lparr>vectors = length h\<rparr>,
             h @ [renormalise_arr
                   ((h ! vectors self)\<lparr>rows := map (map Some) (map2 spec_retract_row fs ts)\<rparr>)]))
   \<and> (valid_frame h self \<and> shape (h ! tang) = shape (h ! vectors self)
        \<and> rows (h ! tang) = map (\<lambda>r. replicate (length r) (Some 0)) (rows (h ! vectors self))
      \<longrightarrow> retract h self tang = (Inr \<lparr>vectors = length h\<rparr>, h @ [h ! vectors self]))"
proof (intro conjI impI)
  assume "ndim (h ! vectors self) = 2 \<and> shape (h ! tang) = shape (h ! vectors self)
      \<and> rows (h ! vectors self) = map (map Some) fs \<and> rows (h ! tang) = map (map Some) ts"
  then show "retract h self tang
          = (Inr \<lparr>vectors = length h\<rparr>,
             h @ [renormalise_arr
                   ((h ! vectors self)\<lparr>rows := map (map Some) (map2 spec_retract_row fs ts)\<rparr>)])"
    by (simp add: retract_eq new_vecs_finite)
next
  assume A: "valid_frame h self \<and> shape (h ! tang) = shape (h ! vectors self)
        \<and> rows (h ! tang) = map (\<lambda>r. replicate (length r) (Some 0)) (rows (h ! vectors self))"
  define F where "F = h ! vectors self"
  have vF: "valid_array F" using A by (simp add: valid_frame_def F_def)
  then obtain vs where vs: "rows F = map (map Some) vs"
    using valid_rows_D[of "rows F"] by (auto simp: valid_array_def)
  have T: "rows (h ! tang) = map (map Some) (map (\<lambda>f. replicate (length f) 0) vs)"
    using A vs by (simp add: F_def comp_def)
  have "new_vecs F (h ! tang) = F\<lparr>rows := map (map Some) (map2 spec_retract_row vs (map (\<lambda>f. replicate (length f) 0) vs))\<rparr>"
    by (rule new_vecs_finite[OF vs T])
  then have "new_vecs F (h ! tang) = F"
    using vs by (simp only: map2_spec_retract_row_zero) simp
  then show "retract h self tang = (Inr \<lparr>vectors = length h\<rparr>, h @ [h ! vectors self])"
    using A vF by (simp add: retract_eq F_def[symmetric] renormalise_arr_valid valid_array_def)
qed

theorem retract_spec_witness:
  "ndim (zero_tangent_store ! vectors \<lparr>vectors = 0\<rparr>) = 2
   \<and> shape (zero_tangent_store ! 1) = shape (zero_tangent_store ! vectors \<lparr>vectors = 0\<rparr>)
   \<and> rows (zero_tangent_store ! vectors \<lparr>vectors = 0\<rparr>) = map (map Some) [[1, 0], [0, 1]]
   \<and> rows (zero_tangent_store ! 1) = map (map Some) [[0, 0], [0, 0]]
   \<and> valid_frame zero_tangent_store \<lparr>vectors = 0\<rparr>
   \<and> rows (zero_tangent_store ! 1)
       = map (\<lambda>r. replicate (length r) (Some 0)) (rows (zero_tangent_store ! vectors \<lparr>vectors = 0\<rparr>))
   \<and> retract zero_tangent_store \<lparr>vectors = 0\<rparr> 1
       = (Inr \<lparr>vectors = length zero_tangent_store\<rparr>,
          zero_tangent_store @ [renormalise_arr
            ((zero_tangent_store ! vectors \<lparr>vectors = 0\<rparr>)
               \<lparr>rows := map (map Some) (map2 spec_retract_row [[1, 0], [0, 1]] [[0, 0], [0, 0]])\<rparr>)])
   \<and> retract zero_tangent_store \<lparr>vectors = 0\<rparr> 1
       = (Inr \<lparr>vectors = length zero_tangent_store\<rparr>,
          zero_tangent_store @ [zero_tangent_store ! vectors \<lparr>vectors = 0\<rparr>])"
proof -
  have h1: "ndim (zero_tangent_store ! vectors \<lparr>vectors = 0\<rparr>) = 2"
    by (simp add: zero_tangent_store_def unit_frame_2x2_def finite_array_def ndim_def)
  have h2: "shape (zero_tangent_store ! 1) = shape (zero_tangent_store ! vectors \<lparr>vectors = 0\<rparr>)"
    by (simp add: zero_tangent_store_def unit_frame_2x2_def finite_array_def)
  have h3: "rows (zero_tangent_store ! vectors \<lparr>vectors = 0\<rparr>) = map (map Some) [[1, 0], [0, 1]]"
    by (simp add: zero_tangent_store_def unit_frame_2x2_def finite_array_def)
  have h4: "rows (zero_tangent_store ! 1) = map (map Some) [[0, 0], [0, 0]]"
    by (simp add: zero_tangent_store_def finite_array_def)
  have h5: "valid_frame zero_tangent_store \<lparr>vectors = 0\<rparr>"
    by (simp add: zero_tangent_store_def valid_frame_def valid_unit_frame_2x2)
  have h6: "rows (zero_tangent_store ! 1)
       = map (\<lambda>r. replicate (length r) (Some 0)) (rows (zero_tangent_store ! vectors \<lparr>vectors = 0\<rparr>))"
    by (simp add: zero_tangent_store_def unit_frame_2x2_def finite_array_def numeral_2_eq_2)
  show ?thesis
    using retract_spec[of zero_tangent_store "\<lparr>vectors = 0\<rparr>" 1 "[[1, 0], [0, 1]]" "[[0, 0], [0, 0]]"]
      h1 h2 h3 h4 h5 h6 by blast
qed










section \<open>The logarithmic map and the retraction\<close>







lemma map2_fst: "length f = length g \<Longrightarrow> map2 (\<lambda>x y. x) f g = f"
  by (induction f g rule: list_induct2) simp_all













lemma close_rows_Some [simp]:
  "close_rows e (map Some u) (map Some w) = list_all2 (\<lambda>x y. cmod (x - y) \<le> e) u w"
  by (simp add: close_rows_def)




lemma log_map_arr_shape [simp]: "shape (log_map_arr a b) = shape a"
  by (simp add: log_map_arr_def)



section \<open>The round trip through the retraction\<close>









lemma length_spec_retract_row [simp]:
  "length (spec_retract_row f t) = min (length f) (length t)"
  by (simp add: spec_retract_row_def Let_def)

lemma length_log_vec [simp]: "length (log_vec f g) = min (length f) (length g)"
  by (simp add: log_vec_def Let_def)

lemma length_renormalised [simp]: "length (renormalised v) = length v"
  by (simp add: renormalised_def Let_def split: option.splits)



















section \<open>The tangent projection\<close>

lemma project_row_spec:
  "project_row (map Some f) (map Some a) = map Some (spec_project_row f a)"
  by (simp only: project_row_Some project_vec_def spec_project_row_def inner_re_commute[of a f])

lemma project_arr_finite:
  assumes "rows F = map (map Some) fs" and "rows A = map (map Some) as"
  shows "rows (project_arr F A) = map (map Some) (map2 spec_project_row fs as)"
  using assms by (simp add: project_arr_def zip_map_map split_def project_row_spec)

text \<open>
  Claim C6. For a valid Frame \<open>F\<close> and a complex array \<open>A\<close> of its shape, \<open>project\<close> returns
  a fresh array \<open>xi\<close> of that shape whose rows are \<open>A_i - Re \<langle>F_i, A_i\<rangle> F_i\<close>, with
  \<open>Re \<langle>F_i, xi_i\<rangle> = 0\<close> in every row, and the store it leaves is the old store with \<open>xi\<close>
  appended: neither \<open>F\<close> nor \<open>A\<close> is written.
\<close>

theorem project_tangent:
  assumes "valid_frame h self" and "arr < length h"
    and "shape (h ! arr) = shape (h ! vectors self)"
    and "well_shaped (h ! arr)" and "finite_rows (h ! arr)"
  shows "\<exists>xi fs as. project h self arr = Some (length h, h @ [xi])
           \<and> shape xi = shape (h ! arr)
           \<and> rows (h ! vectors self) = map (map Some) fs
           \<and> rows (h ! arr) = map (map Some) as
           \<and> rows xi = map (map Some) (map2 spec_project_row fs as)
           \<and> list_all2 (\<lambda>f x. real_inner f x = Some 0) (rows (h ! vectors self)) (rows xi)"
proof -
  define F where "F = h ! vectors self"
  define A where "A = h ! arr"
  have vF: "valid_array F"
    using assms(1) by (simp add: valid_frame_def F_def)
  then obtain n d where sh: "shape F = [n, d]"
    using ndim_2_D[of F] by (auto simp: valid_array_def)
  have rF: "length (rows F) = n" "\<forall>r\<in>set (rows F). length r = d"
    using vF sh well_shaped_D[of F n d] by (simp_all add: valid_array_def)
  have rA: "length (rows A) = n" "\<forall>r\<in>set (rows A). length r = d"
    using assms(3,4) sh well_shaped_D[of A n d] by (simp_all add: A_def F_def)
  obtain fs where fs: "rows F = map (map Some) fs"
    using vF valid_rows_D[of "rows F"] by (auto simp: valid_array_def)
  obtain as where as: "rows A = map (map Some) as"
    using assms(5) finite_rows_D[of A] by (auto simp: A_def)
  have tg: "list_all2 (\<lambda>f x. real_inner f x = Some 0) (rows F) (map2 project_row (rows F) (rows A))"
  proof (rule list_all2_all_nthI)
    show "length (rows F) = length (map2 project_row (rows F) (rows A))"
      by (simp add: rF rA)
  next
    fix i assume i: "i < length (rows F)"
    then have iA: "i < length (rows A)" by (simp add: rF rA)
    have "valid_row (rows F ! i)"
      using vF i by (simp add: valid_array_def list_all_length)
    moreover have "those (rows A ! i) \<noteq> None"
      using assms(5) iA by (simp add: finite_rows_def A_def list_all_length)
    moreover have "length (rows F ! i) = length (rows A ! i)"
      using rF rA i iA by simp
    ultimately show "real_inner (rows F ! i) (map2 project_row (rows F) (rows A) ! i) = Some 0"
      using i iA by (simp add: project_row_tangent)
  qed
  have "project h self arr = Some (length h, h @ [project_arr F A])"
    using assms(3) by (simp add: project_def alloc_def F_def A_def)
  moreover have "shape (project_arr F A) = shape (h ! arr)"
    by (simp add: project_arr_def A_def)
  moreover have "rows (project_arr F A) = map (map Some) (map2 spec_project_row fs as)"
    by (rule project_arr_finite[OF fs as])
  moreover have "list_all2 (\<lambda>f x. real_inner f x = Some 0) (rows F) (rows (project_arr F A))"
    using tg by (simp add: project_arr_def)
  ultimately show ?thesis
    using fs as unfolding F_def A_def by blast
qed


theorem project_tangent_witness:
  "valid_frame ambient_store \<lparr>vectors = 0\<rparr>
   \<and> 1 < length ambient_store
   \<and> shape (ambient_store ! 1) = shape (ambient_store ! vectors \<lparr>vectors = 0\<rparr>)
   \<and> well_shaped (ambient_store ! 1)
   \<and> finite_rows (ambient_store ! 1)
   \<and> (\<exists>xi fs as. project ambient_store \<lparr>vectors = 0\<rparr> 1 = Some (length ambient_store, ambient_store @ [xi])
          \<and> shape xi = shape (ambient_store ! 1)
          \<and> rows (ambient_store ! vectors \<lparr>vectors = 0\<rparr>) = map (map Some) fs
          \<and> rows (ambient_store ! 1) = map (map Some) as
          \<and> rows xi = map (map Some) (map2 spec_project_row fs as)
          \<and> list_all2 (\<lambda>f x. real_inner f x = Some 0)
               (rows (ambient_store ! vectors \<lparr>vectors = 0\<rparr>)) (rows xi))"
proof -
  have h1: "valid_frame ambient_store \<lparr>vectors = 0\<rparr>"
    by (simp add: ambient_store_def valid_frame_def valid_unit_frame_2x2)
  have h2: "1 < length ambient_store"
    by (simp add: ambient_store_def)
  have h3: "shape (ambient_store ! 1) = shape (ambient_store ! vectors \<lparr>vectors = 0\<rparr>)"
    by (simp add: ambient_store_def finite_array_def unit_frame_2x2_def)
  have h4: "well_shaped (ambient_store ! 1)"
    by (simp add: ambient_store_def finite_array_def well_shaped_def)
  have h5: "finite_rows (ambient_store ! 1)"
    by (simp add: ambient_store_def finite_array_def finite_rows_def)
  show ?thesis
    using project_tangent[OF h1 h2 h3 h4 h5] h1 h2 h3 h4 h5 by blast
qed

end
